theory Spec2Isabelle
  imports Complex_Main "HOL-Library.Word"
begin

section \<open>The LED animator of led_animation_library.h\<close>

text \<open>
  The class \<open>LEDAnimator\<close> drives one status LED through a PWM channel. Its public
  operations are \<open>setState\<close> and \<open>update\<close>; \<open>update\<close> dispatches on
  \<open>currentState\<close> to one private pattern routine. The routines read the clock with
  \<open>millis()\<close>, write a duty value with \<open>ledcWrite\<close> and, in three places, block
  with \<open>delay\<close>.

  Modelling choices:
  \<^item> \<open>unsigned long\<close> is 32 bits wide on the target, so \<open>lastUpdate\<close> is a
    \<open>32 word\<close> and \<open>millis() - lastUpdate\<close> is the wrapping subtraction, compared
    unsigned.
  \<^item> \<open>int\<close> fields (\<open>brightness\<close>, \<open>animationStep\<close>, the static \<open>pulsePhase\<close>)
    are HOL integers. \<open>brightness\<close> moves by at most 10 per call and turns round at
    its bounds, and \<open>pulsePhase\<close> stays between 0 and 4; \<open>animationStep\<close> grows by
    one per step of the two sine patterns only, so the 32-bit limit is out of reach of
    every run considered here.
  \<^item> The clock is the number of milliseconds since boot, a natural number;
    \<open>millis()\<close> returns it modulo \<open>2 ^ 32\<close>. A routine reads \<open>millis()\<close> twice
    (in its test and in the assignment to \<open>lastUpdate\<close>); both reads see the same
    value, computation taking no time. Only \<open>delay\<close> and the caller let time pass.
  \<^item> What the code does to the outside (PWM writes, sleeps, serial output) is appended
    to a trace, each event with the clock value at which it happens.
  \<^item> The two sine patterns compute \<open>sin\<close> on doubles and convert to \<open>int\<close>; the
    model uses the real sine and \<open>floor\<close> (the values are never negative, so
    truncation and floor agree).
  \<^item> \<open>begin()\<close> with its startup animation and the two free functions
    \<open>showWiFiConnected\<close> and \<open>showButtonPress\<close> assign no member and are not
    modelled; the time they take is the constructor's parameter \<open>t0\<close>.
\<close>

datatype AnimationState =
    IDLE
  | RECORDING
  | PROCESSING
  | UPLOADING
  | SUCCESS
  | ERROR
  | CONNECTING
  | LISTENING
  | BRUTAL_FEEDBACK
  | LOW_BATTERY

text \<open>\<open>LedcWrite channel duty\<close>, \<open>Delay ms\<close>, and the \<open>Serial.printf\<close> of \<open>setState\<close>.\<close>

datatype event =
    LedcWrite int int
  | Delay nat
  | SerialPrintf AnimationState

record LEDAnimator =
  ledPin :: int
  ledChannel :: int
  lastUpdate :: "32 word"
  animationStep :: int
  brightness :: int
  direction :: bool
  currentState :: AnimationState

text \<open>
  The animator together with what lies outside the object: the function-local
  \<open>static int pulsePhase\<close> of \<open>connectingPulse\<close>, the clock and the trace.
\<close>

record world = LEDAnimator +
  pulsePhase :: int
  clock :: nat
  trace :: "(nat \<times> event) list"

subsection \<open>The Arduino primitives\<close>

definition millis :: "world \<Rightarrow> 32 word" where
  "millis w = of_nat (clock w)"

definition delay :: "nat \<Rightarrow> world \<Rightarrow> world" where
  "delay ms w = w\<lparr>clock := clock w + ms, trace := trace w @ [(clock w, Delay ms)]\<rparr>"

definition ledcWrite :: "int \<Rightarrow> int \<Rightarrow> world \<Rightarrow> world" where
  "ledcWrite channel duty w = w\<lparr>trace := trace w @ [(clock w, LedcWrite channel duty)]\<rparr>"

subsection \<open>Constructor and setState\<close>

text \<open>The constructor \<open>LEDAnimator(pin)\<close>, run when the clock shows \<open>t0\<close>.\<close>

definition new_LEDAnimator :: "int \<Rightarrow> nat \<Rightarrow> world" where
  "new_LEDAnimator pin t0 =
     \<lparr>ledPin = pin, ledChannel = 0, lastUpdate = 0, animationStep = 0, brightness = 0,
      direction = True, currentState = IDLE, pulsePhase = 0, clock = t0, trace = []\<rparr>"

definition setState :: "AnimationState \<Rightarrow> world \<Rightarrow> world" where
  "setState state w =
     (if currentState w \<noteq> state
      then w\<lparr>currentState := state, animationStep := 0,
             trace := trace w @ [(clock w, SerialPrintf state)]\<rparr>
      else w)"

subsection \<open>The pattern routines\<close>

definition breathingEffect :: "world \<Rightarrow> world" where
  "breathingEffect w =
     (if 20 < millis w - lastUpdate w then
        let w1 = w\<lparr>lastUpdate := millis w\<rparr>;
            w2 = (if direction w1 then
                    let wa = w1\<lparr>brightness := brightness w1 + 1\<rparr>
                    in (if 80 \<le> brightness wa then wa\<lparr>direction := False\<rparr> else wa)
                  else
                    let wb = w1\<lparr>brightness := brightness w1 - 1\<rparr>
                    in (if brightness wb \<le> 0 then delay 300 (wb\<lparr>direction := True\<rparr>)
                        else wb))
        in ledcWrite (ledChannel w2) (brightness w2) w2
      else w)"

definition recordingPulse :: "world \<Rightarrow> world" where
  "recordingPulse w =
     (if 8 < millis w - lastUpdate w then
        let w1 = w\<lparr>lastUpdate := millis w\<rparr>;
            w2 = (if direction w1 then
                    let wa = w1\<lparr>brightness := brightness w1 + 10\<rparr>
                    in (if 255 \<le> brightness wa then wa\<lparr>direction := False\<rparr> else wa)
                  else
                    let wb = w1\<lparr>brightness := brightness w1 - 10\<rparr>
                    in (if brightness wb \<le> 50 then wb\<lparr>direction := True\<rparr> else wb))
        in ledcWrite (ledChannel w2) (brightness w2) w2
      else w)"

text \<open>
  In the two sine routines \<open>int brightness = ...\<close> declares a local variable: the
  member \<open>brightness\<close> is not assigned.
\<close>

definition processingSpinner :: "world \<Rightarrow> world" where
  "processingSpinner w =
     (if 30 < millis w - lastUpdate w then
        let w1 = w\<lparr>lastUpdate := millis w, animationStep := animationStep w + 1\<rparr>
        in ledcWrite (ledChannel w1)
             \<lfloor>(sin (real_of_int (animationStep w1) * 0.1) + 1) * 127\<rfloor> w1
      else w)"

definition uploadingBlink :: "world \<Rightarrow> world" where
  "uploadingBlink w =
     (if 100 < millis w - lastUpdate w then
        let w1 = w\<lparr>lastUpdate := millis w\<rparr>;
            w2 = w1\<lparr>brightness := (if brightness w1 = 0 then 255 else 0)\<rparr>
        in ledcWrite (ledChannel w2) (brightness w2) w2
      else w)"

text \<open>
  \<open>animationStep % 2\<close> is used as a truth value. C++ gives \<open>-1\<close> for a negative odd
  number where HOL's \<open>mod\<close> gives \<open>1\<close>; both are non-zero exactly for odd numbers.
\<close>

definition successFlash :: "world \<Rightarrow> world" where
  "successFlash w =
     (if animationStep w < 6 \<and> 150 < millis w - lastUpdate w then
        let w1 = w\<lparr>lastUpdate := millis w\<rparr>;
            w2 = ledcWrite (ledChannel w1) (if animationStep w1 mod 2 \<noteq> 0 then 255 else 0) w1
        in w2\<lparr>animationStep := animationStep w2 + 1\<rparr>
      else if 6 \<le> animationStep w then setState IDLE w
      else w)"

definition errorFlash :: "world \<Rightarrow> world" where
  "errorFlash w =
     (if 50 < millis w - lastUpdate w then
        let w1 = w\<lparr>lastUpdate := millis w\<rparr>;
            w2 = w1\<lparr>brightness := (if brightness w1 = 0 then 255 else 0)\<rparr>
        in ledcWrite (ledChannel w2) (brightness w2) w2
      else w)"

text \<open>
  The \<open>switch\<close> has no default: for any other value of \<open>pulsePhase\<close> only the
  increment after the \<open>switch\<close> runs.
\<close>

definition connectingPulse :: "world \<Rightarrow> world" where
  "connectingPulse w =
     (if 200 < millis w - lastUpdate w then
        let w1 = w\<lparr>lastUpdate := millis w\<rparr>;
            w2 = (if pulsePhase w1 = 0 \<or> pulsePhase w1 = 2 then
                    ledcWrite (ledChannel w1) 255 w1
                  else if pulsePhase w1 = 1 \<or> pulsePhase w1 = 3 then
                    ledcWrite (ledChannel w1) 0 w1
                  else if pulsePhase w1 = 4 then
                    delay 600 ((ledcWrite (ledChannel w1) 0 w1)\<lparr>pulsePhase := - 1\<rparr>)
                  else w1)
        in w2\<lparr>pulsePhase := pulsePhase w2 + 1\<rparr>
      else w)"

definition listeningWave :: "world \<Rightarrow> world" where
  "listeningWave w =
     (if 40 < millis w - lastUpdate w then
        let w1 = w\<lparr>lastUpdate := millis w, animationStep := animationStep w + 1\<rparr>
        in ledcWrite (ledChannel w1)
             \<lfloor>(sin (real_of_int (animationStep w1) * 0.05) + 1) * 80 + 20\<rfloor> w1
      else w)"

definition brutalFeedbackEffect :: "world \<Rightarrow> world" where
  "brutalFeedbackEffect w =
     (if animationStep w = 0 then
        let w1 = ledcWrite (ledChannel w) 0 w;
            w2 = delay 500 w1
        in w2\<lparr>animationStep := 1\<rparr>
      else if animationStep w \<le> 6 \<and> 100 < millis w - lastUpdate w then
        let w1 = w\<lparr>lastUpdate := millis w\<rparr>;
            w2 = ledcWrite (ledChannel w1) (if animationStep w1 mod 2 \<noteq> 0 then 255 else 0) w1
        in w2\<lparr>animationStep := animationStep w2 + 1\<rparr>
      else if 6 < animationStep w then setState LISTENING w
      else w)"

definition lowBatteryWarning :: "world \<Rightarrow> world" where
  "lowBatteryWarning w =
     (if 1000 < millis w - lastUpdate w then
        let w1 = w\<lparr>lastUpdate := millis w\<rparr>;
            w2 = w1\<lparr>brightness := (if brightness w1 = 0 then 100 else 0)\<rparr>
        in ledcWrite (ledChannel w2) (brightness w2) w2
      else w)"

subsection \<open>update\<close>

definition update :: "world \<Rightarrow> world" where
  "update w =
     (case currentState w of
        IDLE \<Rightarrow> breathingEffect w
      | RECORDING \<Rightarrow> recordingPulse w
      | PROCESSING \<Rightarrow> processingSpinner w
      | UPLOADING \<Rightarrow> uploadingBlink w
      | SUCCESS \<Rightarrow> successFlash w
      | ERROR \<Rightarrow> errorFlash w
      | CONNECTING \<Rightarrow> connectingPulse w
      | LISTENING \<Rightarrow> listeningWave w
      | BRUTAL_FEEDBACK \<Rightarrow> brutalFeedbackEffect w
      | LOW_BATTERY \<Rightarrow> lowBatteryWarning w)"

subsection \<open>The driver loop\<close>

text \<open>
  The surrounding firmware calls \<open>update\<close> again and again. \<open>advance d\<close> lets
  \<open>d\<close> milliseconds pass between two calls, \<open>tick d\<close> is one call made \<open>d\<close>
  milliseconds after the previous one returned, and \<open>run ds\<close> makes one call for each
  element of \<open>ds\<close>, with no \<open>setState\<close> from outside in between.
\<close>

definition advance :: "nat \<Rightarrow> world \<Rightarrow> world" where
  "advance d w = w\<lparr>clock := clock w + d\<rparr>"

definition tick :: "nat \<Rightarrow> world \<Rightarrow> world" where
  "tick d w = update (advance d w)"

primrec run :: "nat list \<Rightarrow> world \<Rightarrow> world" where
  "run [] w = w"
| "run (d # ds) w = run ds (tick d w)"

text \<open>The value a routine compares with its cadence: \<open>millis() - lastUpdate\<close>.\<close>

definition elapsed :: "world \<Rightarrow> 32 word" where
  "elapsed w = millis w - lastUpdate w"

text \<open>
  \<open>qualifying c ds w\<close>: every call of the run \<open>ds\<close> from \<open>w\<close> finds more than
  \<open>c\<close> milliseconds elapsed, the test each routine makes.
\<close>

primrec qualifying :: "32 word \<Rightarrow> nat list \<Rightarrow> world \<Rightarrow> bool" where
  "qualifying c [] w = True"
| "qualifying c (d # ds) w = (c < elapsed (advance d w) \<and> qualifying c ds (tick d w))"

text \<open>
  The same with \<open>\<le>\<close> in place of \<open><\<close>: every call finds at least \<open>c\<close>
  milliseconds elapsed. No routine tests this; it serves to state what happens at a gap
  of exactly the cadence.
\<close>

primrec at_least_apart :: "32 word \<Rightarrow> nat list \<Rightarrow> world \<Rightarrow> bool" where
  "at_least_apart c [] w = True"
| "at_least_apart c (d # ds) w =
     (c \<le> elapsed (advance d w) \<and> at_least_apart c ds (tick d w))"

subsection \<open>Reading the trace\<close>

text \<open>The events a stretch of execution from \<open>w\<close> to \<open>w'\<close> has added to the trace.\<close>

definition emitted :: "world \<Rightarrow> world \<Rightarrow> (nat \<times> event) list" where
  "emitted w w' = drop (length (trace w)) (trace w')"

fun duty_of :: "nat \<times> event \<Rightarrow> int list" where
  "duty_of (t, LedcWrite channel duty) = [duty]"
| "duty_of (t, Delay ms) = []"
| "duty_of (t, SerialPrintf s) = []"

fun delay_of :: "nat \<times> event \<Rightarrow> nat list" where
  "delay_of (t, Delay ms) = [ms]"
| "delay_of (t, LedcWrite channel duty) = []"
| "delay_of (t, SerialPrintf s) = []"

definition duties :: "(nat \<times> event) list \<Rightarrow> int list" where
  "duties tr = concat (map duty_of tr)"

definition delays :: "(nat \<times> event) list \<Rightarrow> nat list" where
  "delays tr = concat (map delay_of tr)"

section \<open>Auxiliary facts\<close>

lemmas prims = millis_def delay_def ledcWrite_def setState_def advance_def tick_def
  elapsed_def emitted_def duties_def delays_def

lemmas routines = breathingEffect_def recordingPulse_def processingSpinner_def
  uploadingBlink_def successFlash_def errorFlash_def connectingPulse_def listeningWave_def
  brutalFeedbackEffect_def lowBatteryWarning_def

lemma duties_append: "duties (xs @ ys) = duties xs @ duties ys"
  by (simp add: duties_def)

lemma emitted_append: "trace w' = trace w @ es \<Longrightarrow> emitted w w' = es"
  by (simp add: emitted_def)

lemma flash_list:
  "map f [0..<Suc n] = f 0 # map (\<lambda>i. f (Suc i)) [0..<n]"
  by (simp add: upt_conv_Cons map_Suc_upt [symmetric] del: upt_Suc)

lemma upt_six: "[0..<6] = [0, 1, 2, 3, 4, 5]"
  by (simp add: upt_rec)

lemmas evals = update_def prims routines new_LEDAnimator_def Let_def

lemma run_append: "run (xs @ ys) w = run ys (run xs w)"
  by (induction xs arbitrary: w) simp_all

lemma direction_same: "direction w = b \<Longrightarrow> w\<lparr>direction := b\<rparr> = w"
  by auto

text \<open>
  The trace only grows and the clock never runs backwards: what a call or a run adds
  to the trace carries timestamps from its start onwards.
\<close>

lemma update_grows:
  "trace (update w) = trace w @ emitted w (update w) \<and>
   (\<forall>x\<in>set (emitted w (update w)). clock w \<le> fst x) \<and>
   clock w \<le> clock (update w)"
  by (cases "currentState w") (simp_all add: update_def prims routines Let_def)

lemma run_grows:
  "trace (run ds w) = trace w @ emitted w (run ds w) \<and>
   (\<forall>x\<in>set (emitted w (run ds w)). clock w \<le> fst x) \<and>
   clock w \<le> clock (run ds w)"
proof (induction ds arbitrary: w)
  case Nil
  show ?case by (simp add: emitted_def)
next
  case (Cons d ds)
  let ?a = "advance d w"
  let ?t = "tick d w"
  have a: "trace ?a = trace w" "clock ?a = clock w + d"
    by (simp_all add: advance_def)
  have u: "trace ?t = trace w @ emitted ?a ?t"
    "\<forall>x\<in>set (emitted ?a ?t). clock w + d \<le> fst x" "clock w + d \<le> clock ?t"
    using update_grows [of ?a] a by (simp_all add: tick_def)
  note r = Cons.IH [of ?t]
  have tr: "trace (run (d # ds) w) = trace w @ (emitted ?a ?t @ emitted ?t (run ds ?t))"
    using r u(1) by simp
  then have e: "emitted w (run (d # ds) w) = emitted ?a ?t @ emitted ?t (run ds ?t)"
    by (rule emitted_append)
  have "\<forall>x\<in>set (emitted ?a ?t @ emitted ?t (run ds ?t)). clock w \<le> fst x"
    using u(2,3) r by fastforce
  moreover have "clock w \<le> clock (run (d # ds) w)"
    using u(3) r by simp
  ultimately show ?case
    using tr e by simp
qed

section \<open>setState\<close>

text \<open>
  C6. For every engine state and every \<open>newState\<close>: when \<open>newState\<close> differs from
  \<open>currentState\<close>, \<open>setState\<close> makes it the current state and resets
  \<open>animationStep\<close> to 0, leaving \<open>brightness\<close>, \<open>direction\<close> and \<open>lastUpdate\<close>
  (and the pins, the static phase counter and the clock) as they were; when it equals
  \<open>currentState\<close>, no field changes at all, so a second call with the same state is a
  no-op.
\<close>

theorem setState_contract:
  "(newState \<noteq> currentState w \<longrightarrow>
      currentState (setState newState w) = newState \<and>
      animationStep (setState newState w) = 0 \<and>
      brightness (setState newState w) = brightness w \<and>
      direction (setState newState w) = direction w \<and>
      lastUpdate (setState newState w) = lastUpdate w \<and>
      ledPin (setState newState w) = ledPin w \<and>
      ledChannel (setState newState w) = ledChannel w \<and>
      pulsePhase (setState newState w) = pulsePhase w \<and>
      clock (setState newState w) = clock w) \<and>
   (newState = currentState w \<longrightarrow> setState newState w = w) \<and>
   setState newState (setState newState w) = setState newState w"
  by (simp add: setState_def)

text \<open>A redundant call in the middle of the Success pattern keeps step 1; a real change resets it.\<close>

theorem setState_contract_witness:
  "SUCCESS \<noteq> currentState (new_LEDAnimator 2 0) \<and>
   animationStep (tick 151 (setState SUCCESS (new_LEDAnimator 2 0))) = 1 \<and>
   setState SUCCESS (tick 151 (setState SUCCESS (new_LEDAnimator 2 0))) =
     tick 151 (setState SUCCESS (new_LEDAnimator 2 0)) \<and>
   animationStep (setState RECORDING (tick 151 (setState SUCCESS (new_LEDAnimator 2 0)))) = 0 \<and>
   lastUpdate (setState RECORDING (tick 151 (setState SUCCESS (new_LEDAnimator 2 0)))) = 151"
  using setState_contract [of SUCCESS "new_LEDAnimator 2 0"]
    setState_contract [of SUCCESS "tick 151 (setState SUCCESS (new_LEDAnimator 2 0))"]
    setState_contract [of RECORDING "tick 151 (setState SUCCESS (new_LEDAnimator 2 0))"]
  by (simp add: evals)

section \<open>Sleeping inside update\<close>

text \<open>
  C2, as the code has it. \<open>update\<close> does sleep: \<open>breathingEffect\<close> calls
  \<open>delay(300)\<close> in the call that brings \<open>brightness\<close> down to 0 or below,
  \<open>connectingPulse\<close> calls \<open>delay(600)\<close> in the call that finds \<open>pulsePhase\<close>
  at 4, and \<open>brutalFeedbackEffect\<close> calls \<open>delay(500)\<close> in the call that finds
  \<open>animationStep\<close> at 0. In every other case a call of \<open>update\<close> executes no
  \<open>delay\<close>. The clock moves during a call by exactly what the call sleeps.
\<close>

theorem update_sleeps:
  "delays (emitted w (update w)) =
     (if currentState w = IDLE \<and> 20 < elapsed w \<and> \<not> direction w \<and> brightness w - 1 \<le> 0
      then [300]
      else if currentState w = CONNECTING \<and> 200 < elapsed w \<and> pulsePhase w = 4
      then [600]
      else if currentState w = BRUTAL_FEEDBACK \<and> animationStep w = 0
      then [500]
      else []) \<and>
   clock (update w) = clock w + sum_list (delays (emitted w (update w)))"
  by (cases "currentState w") (simp_all add: update_def prims routines Let_def)

text \<open>The fifth Connecting step of a run from boot sleeps 600 ms.\<close>

theorem update_sleeps_witness:
  "pulsePhase (run [201, 201, 201, 201] (setState CONNECTING (new_LEDAnimator 2 0))) = 4 \<and>
   delays (emitted (advance 201 (run [201, 201, 201, 201] (setState CONNECTING (new_LEDAnimator 2 0))))
                   (tick 201 (run [201, 201, 201, 201] (setState CONNECTING (new_LEDAnimator 2 0))))) = [600] \<and>
   clock (tick 201 (run [201, 201, 201, 201] (setState CONNECTING (new_LEDAnimator 2 0)))) = 1605"
  using update_sleeps [of "advance 201 (run [201, 201, 201, 201] (setState CONNECTING (new_LEDAnimator 2 0)))"]
  by (simp add: evals)

text \<open>
  C2 as stated fails: the first \<open>update\<close> after \<open>setState(BRUTAL_FEEDBACK)\<close> on a
  freshly constructed animator executes \<open>delay(500)\<close> and returns 500 ms later.
\<close>

theorem update_blocks_counterexample:
  "emitted (setState BRUTAL_FEEDBACK (new_LEDAnimator 2 0))
           (update (setState BRUTAL_FEEDBACK (new_LEDAnimator 2 0))) =
     [(0, LedcWrite 0 0), (0, Delay 500)] \<and>
   clock (update (setState BRUTAL_FEEDBACK (new_LEDAnimator 2 0))) = 500"
  by (simp add: evals)

section \<open>The Success pattern\<close>

lemma success_step:
  assumes "currentState w = SUCCESS" "animationStep w < 6" "150 < elapsed (advance d w)"
  shows "currentState (tick d w) = SUCCESS \<and>
         animationStep (tick d w) = animationStep w + 1 \<and>
         ledChannel (tick d w) = ledChannel w \<and>
         trace (tick d w) = trace w @
           [(clock w + d,
             LedcWrite (ledChannel w) (if animationStep w mod 2 \<noteq> 0 then 255 else 0))]"
  using assms by (simp add: update_def prims successFlash_def Let_def)

lemma success_done:
  assumes "currentState w = SUCCESS" "6 \<le> animationStep w"
  shows "currentState (tick d w) = IDLE \<and> animationStep (tick d w) = 0 \<and>
         trace (tick d w) = trace w @ [(clock w + d, SerialPrintf IDLE)]"
  using assms by (simp add: update_def prims successFlash_def Let_def)

text \<open>Any number of qualifying calls that fits below step 6, from any step.\<close>

lemma success_run:
  assumes "currentState w = SUCCESS" "animationStep w + int (length ds) \<le> 6"
    "qualifying 150 ds w"
  shows "currentState (run ds w) = SUCCESS \<and>
         animationStep (run ds w) = animationStep w + int (length ds) \<and>
         (\<exists>es. trace (run ds w) = trace w @ es \<and>
            duties es = map (\<lambda>i. if (animationStep w + int i) mod 2 \<noteq> 0 then 255 else 0)
                            [0..<length ds])"
  using assms
proof (induction ds arbitrary: w)
  case Nil
  then show ?case by (simp add: duties_def)
next
  case (Cons d ds)
  from Cons.prems have st: "animationStep w < 6" and q: "150 < elapsed (advance d w)"
    and q': "qualifying 150 ds (tick d w)"
    by simp_all
  note s = success_step [OF Cons.prems(1) st q]
  have "animationStep (tick d w) + int (length ds) \<le> 6"
    using Cons.prems(2) s by simp
  from Cons.IH [OF _ this q'] s obtain es where
    c: "currentState (run ds (tick d w)) = SUCCESS"
    and a: "animationStep (run ds (tick d w)) = animationStep w + 1 + int (length ds)"
    and t: "trace (run ds (tick d w)) = trace (tick d w) @ es"
    and e: "duties es = map (\<lambda>i. if (animationStep w + 1 + int i) mod 2 \<noteq> 0 then 255 else 0)
                            [0..<length ds]"
    by auto
  let ?e = "(clock w + d,
             LedcWrite (ledChannel w) (if animationStep w mod 2 \<noteq> 0 then 255 else 0))"
  have "trace (run (d # ds) w) = trace w @ (?e # es)"
    using t s by simp
  moreover have "duties (?e # es) =
      map (\<lambda>i. if (animationStep w + int i) mod 2 \<noteq> 0 then 255 else 0) [0..<length (d # ds)]"
    using e duties_append [of "[?e]" es]
    by (simp add: duties_def flash_list add.assoc del: upt_Suc)
  ultimately show ?case
    using c a by auto
qed

text \<open>
  C3, as the code has it. In state \<open>SUCCESS\<close> with \<open>animationStep = 0\<close>, six calls of
  \<open>update\<close>, each finding more than 150 ms elapsed since \<open>lastUpdate\<close> (the
  wrapping 32-bit difference; exactly 150 ms is not enough), write the duties
  0, 255, 0, 255, 0, 255 and leave the state at \<open>SUCCESS\<close>; the seventh call, after
  any time at all, writes nothing and makes the state \<open>IDLE\<close> with \<open>animationStep\<close>
  back at 0.
\<close>

theorem successFlash_pattern:
  assumes "currentState w = SUCCESS" and "animationStep w = 0"
    and "length ds = 6" and "qualifying 150 ds w"
  shows "duties (emitted w (run ds w)) = [0, 255, 0, 255, 0, 255] \<and>
         currentState (run ds w) = SUCCESS \<and>
         currentState (tick d (run ds w)) = IDLE \<and>
         animationStep (tick d (run ds w)) = 0 \<and>
         duties (emitted (run ds w) (tick d (run ds w))) = []"
proof -
  from success_run [of w ds] assms obtain es where
    c: "currentState (run ds w) = SUCCESS" and a: "animationStep (run ds w) = 6"
    and t: "trace (run ds w) = trace w @ es"
    and e: "duties es = map (\<lambda>i. if int i mod 2 \<noteq> 0 then 255 else 0) [0..<6]"
    by auto
  have "duties es = [0, 255, 0, 255, 0, 255]"
    using e by (simp add: upt_six)
  moreover have "emitted w (run ds w) = es"
    using t by (rule emitted_append)
  moreover note d = success_done [of "run ds w" d]
  moreover have "emitted (run ds w) (tick d (run ds w)) =
      [(clock (run ds w) + d, SerialPrintf IDLE)]"
    using d c a by (simp add: emitted_def)
  ultimately show ?thesis
    using c a by (simp add: duties_def)
qed

theorem successFlash_pattern_witness:
  "currentState (setState SUCCESS (new_LEDAnimator 2 0)) = SUCCESS \<and>
   animationStep (setState SUCCESS (new_LEDAnimator 2 0)) = 0 \<and>
   length [151, 151, 151, 151, 151, 151 :: nat] = 6 \<and>
   qualifying 150 [151, 151, 151, 151, 151, 151] (setState SUCCESS (new_LEDAnimator 2 0)) \<and>
   duties (emitted (setState SUCCESS (new_LEDAnimator 2 0))
      (run [151, 151, 151, 151, 151, 151] (setState SUCCESS (new_LEDAnimator 2 0)))) = [0, 255, 0, 255, 0, 255] \<and>
   currentState (tick 0 (run [151, 151, 151, 151, 151, 151] (setState SUCCESS (new_LEDAnimator 2 0)))) = IDLE \<and>
   animationStep (tick 0 (run [151, 151, 151, 151, 151, 151] (setState SUCCESS (new_LEDAnimator 2 0)))) = 0"
proof -
  have h: "currentState (setState SUCCESS (new_LEDAnimator 2 0)) = SUCCESS"
    "animationStep (setState SUCCESS (new_LEDAnimator 2 0)) = 0"
    "length [151, 151, 151, 151, 151, 151 :: nat] = 6"
    "qualifying 150 [151, 151, 151, 151, 151, 151] (setState SUCCESS (new_LEDAnimator 2 0))"
    by (simp_all add: evals)
  show ?thesis
    using h successFlash_pattern [OF h, of 0] by simp
qed

text \<open>
  C3 as stated fails at the boundary: seven calls, each exactly 150 ms after the
  previous one, starting 150 ms after \<open>lastUpdate\<close>. Every call finds at least
  150 ms elapsed, yet only every second one passes the test \<open>> 150\<close>: the first six
  calls write three duties and after the seventh the state is still \<open>SUCCESS\<close>.
\<close>

theorem successFlash_boundary_counterexample:
  "currentState (setState SUCCESS (new_LEDAnimator 2 0)) = SUCCESS \<and>
   animationStep (setState SUCCESS (new_LEDAnimator 2 0)) = 0 \<and>
   at_least_apart 150 [150, 150, 150, 150, 150, 150, 150] (setState SUCCESS (new_LEDAnimator 2 0)) \<and>
   duties (emitted (setState SUCCESS (new_LEDAnimator 2 0))
      (run [150, 150, 150, 150, 150, 150] (setState SUCCESS (new_LEDAnimator 2 0)))) = [0, 255, 0] \<and>
   currentState (run [150, 150, 150, 150, 150, 150, 150] (setState SUCCESS (new_LEDAnimator 2 0))) = SUCCESS"
  by (simp add: evals)

section \<open>The BrutalFeedback pattern\<close>

lemma brutal_first:
  assumes "currentState w = BRUTAL_FEEDBACK" "animationStep w = 0"
  shows "update w = w\<lparr>animationStep := 1, clock := clock w + 500,
           trace := trace w @ [(clock w, LedcWrite (ledChannel w) 0), (clock w, Delay 500)]\<rparr>"
  using assms by (simp add: update_def prims brutalFeedbackEffect_def Let_def)

lemma brutal_step:
  assumes "currentState w = BRUTAL_FEEDBACK" "animationStep w \<noteq> 0" "animationStep w \<le> 6"
    "100 < elapsed (advance d w)"
  shows "currentState (tick d w) = BRUTAL_FEEDBACK \<and>
         animationStep (tick d w) = animationStep w + 1 \<and>
         ledChannel (tick d w) = ledChannel w \<and>
         clock (tick d w) = clock w + d \<and>
         trace (tick d w) = trace w @
           [(clock w + d,
             LedcWrite (ledChannel w) (if animationStep w mod 2 \<noteq> 0 then 255 else 0))]"
  using assms by (simp add: update_def prims brutalFeedbackEffect_def Let_def)

lemma brutal_done:
  assumes "currentState w = BRUTAL_FEEDBACK" "6 < animationStep w"
  shows "currentState (tick d w) = LISTENING \<and> animationStep (tick d w) = 0 \<and>
         trace (tick d w) = trace w @ [(clock w + d, SerialPrintf LISTENING)]"
  using assms by (simp add: update_def prims brutalFeedbackEffect_def Let_def)

lemma brutal_run:
  assumes "currentState w = BRUTAL_FEEDBACK" "1 \<le> animationStep w"
    "animationStep w + int (length ds) \<le> 7" "qualifying 100 ds w"
  shows "currentState (run ds w) = BRUTAL_FEEDBACK \<and>
         animationStep (run ds w) = animationStep w + int (length ds) \<and>
         (\<exists>es. trace (run ds w) = trace w @ es \<and> (\<forall>x\<in>set es. clock w \<le> fst x) \<and>
            duties es = map (\<lambda>i. if (animationStep w + int i) mod 2 \<noteq> 0 then 255 else 0)
                            [0..<length ds])"
  using assms
proof (induction ds arbitrary: w)
  case Nil
  then show ?case by (simp add: duties_def)
next
  case (Cons d ds)
  from Cons.prems have st: "animationStep w \<noteq> 0" "animationStep w \<le> 6"
    and q: "100 < elapsed (advance d w)" and q': "qualifying 100 ds (tick d w)"
    by simp_all
  note s = brutal_step [OF Cons.prems(1) st q]
  have "1 \<le> animationStep (tick d w)" "animationStep (tick d w) + int (length ds) \<le> 7"
    using Cons.prems(2,3) s by simp_all
  from Cons.IH [OF _ this q'] s obtain es where
    c: "currentState (run ds (tick d w)) = BRUTAL_FEEDBACK"
    and a: "animationStep (run ds (tick d w)) = animationStep w + 1 + int (length ds)"
    and t: "trace (run ds (tick d w)) = trace (tick d w) @ es"
    and ts: "\<forall>x\<in>set es. clock w + d \<le> fst x"
    and e: "duties es = map (\<lambda>i. if (animationStep w + 1 + int i) mod 2 \<noteq> 0 then 255 else 0)
                            [0..<length ds]"
    by auto
  let ?e = "(clock w + d,
             LedcWrite (ledChannel w) (if animationStep w mod 2 \<noteq> 0 then 255 else 0))"
  have "trace (run (d # ds) w) = trace w @ (?e # es)"
    using t s by simp
  moreover have "duties (?e # es) =
      map (\<lambda>i. if (animationStep w + int i) mod 2 \<noteq> 0 then 255 else 0) [0..<length (d # ds)]"
    using e duties_append [of "[?e]" es]
    by (simp add: duties_def flash_list add.assoc del: upt_Suc)
  moreover have "\<forall>x\<in>set (?e # es). clock w \<le> fst x"
    using ts by auto
  ultimately show ?case
    using c a by auto
qed

text \<open>A call that is not due does nothing; the Listening pattern keeps its state.\<close>

lemma brutal_wait:
  assumes "currentState w = BRUTAL_FEEDBACK" "animationStep w \<noteq> 0" "animationStep w \<le> 6"
    "\<not> 100 < elapsed (advance d w)"
  shows "tick d w = advance d w"
  using assms by (simp add: update_def prims brutalFeedbackEffect_def Let_def)

lemma listening_tick_state: "currentState w = LISTENING \<Longrightarrow> currentState (tick d w) = LISTENING"
  by (simp add: update_def prims listeningWave_def Let_def)

lemma listening_run_state: "currentState w = LISTENING \<Longrightarrow> currentState (run ds w) = LISTENING"
  by (induction ds arbitrary: w) (simp_all add: listening_tick_state)

lemma toggle_take:
  assumes "1 \<le> s" "s \<le> (6::int)"
  shows "take (nat (s - 1)) [255, 0, 255, 0, 255, 0 :: int] @ [if s mod 2 \<noteq> 0 then 255 else 0] =
         take (nat s) [255, 0, 255, 0, 255, 0]"
proof -
  from assms have "s = 1 \<or> s = 2 \<or> s = 3 \<or> s = 4 \<or> s = 5 \<or> s = 6"
    by arith
  then show ?thesis
    by (elim disjE) simp_all
qed

text \<open>
  However the driver polls: as long as the state is \<open>BRUTAL_FEEDBACK\<close>, the duties
  written since the first call are the first \<open>animationStep - 1\<close> of
  255, 0, 255, 0, 255, 0.
\<close>

lemma brutal_run_inv:
  assumes "currentState w = BRUTAL_FEEDBACK" "1 \<le> animationStep w" "animationStep w \<le> 7"
    "n \<le> length (trace w)"
    "duties (drop n (trace w)) = take (nat (animationStep w - 1)) [255, 0, 255, 0, 255, 0]"
    "currentState (run ds w) = BRUTAL_FEEDBACK"
  shows "1 \<le> animationStep (run ds w) \<and> animationStep (run ds w) \<le> 7 \<and>
         duties (drop n (trace (run ds w))) =
           take (nat (animationStep (run ds w) - 1)) [255, 0, 255, 0, 255, 0]"
  using assms
proof (induction ds arbitrary: w)
  case Nil
  then show ?case by simp
next
  case (Cons d ds)
  show ?case
  proof (cases "animationStep w \<le> 6")
    case False
    then have "6 < animationStep w" by simp
    from brutal_done [OF Cons.prems(1) this, of d]
    have "currentState (run ds (tick d w)) = LISTENING"
      by (simp add: listening_run_state)
    with Cons.prems(6) show ?thesis by simp
  next
    case True
    have nz: "animationStep w \<noteq> 0" using Cons.prems(2) by simp
    show ?thesis
    proof (cases "100 < elapsed (advance d w)")
      case due: True
      note s = brutal_step [OF Cons.prems(1) nz True due]
      define v :: int where "v = (if animationStep w mod 2 \<noteq> 0 then 255 else 0)"
      have "trace (tick d w) = trace w @ [(clock w + d, LedcWrite (ledChannel w) v)]"
        using s by (simp add: v_def)
      then have "duties (drop n (trace (tick d w))) = duties (drop n (trace w)) @ [v]"
        using Cons.prems(4) by (simp add: duties_def)
      also have "\<dots> = take (nat (animationStep w)) [255, 0, 255, 0, 255, 0]"
        unfolding Cons.prems(5) v_def by (rule toggle_take [OF Cons.prems(2) True])
      finally have "duties (drop n (trace (tick d w))) =
          take (nat (animationStep (tick d w) - 1)) [255, 0, 255, 0, 255, 0]"
        using s by simp
      moreover have "n \<le> length (trace (tick d w))"
        using s Cons.prems(4) by simp
      ultimately show ?thesis
        using Cons.IH [of "tick d w"] s Cons.prems(2,6) True by simp
    next
      case False
      from brutal_wait [OF Cons.prems(1) nz True False]
      have "tick d w = advance d w" .
      then show ?thesis
        using Cons.IH [of "advance d w"] Cons.prems by (simp add: advance_def)
    qed
  qed
qed

text \<open>
  C4, as the code has it. Let \<open>w1\<close> be the engine just after
  \<open>setState(BRUTAL_FEEDBACK)\<close> entered the state, \<open>w2\<close> the engine after the first
  \<open>update\<close>, and \<open>w\<close> the engine after any further calls \<open>ds\<close>, made at any
  times. Whatever time has elapsed, the first call writes duty 0 and then sleeps 500 ms,
  so it returns with the clock 500 ms on and everything written later carries a
  timestamp at least 500 ms after the entry. While the state is still
  \<open>BRUTAL_FEEDBACK\<close>, the duties written since the first call are an initial stretch
  of 255, 0, 255, 0, 255, 0, as long as \<open>animationStep - 1\<close>. While
  \<open>animationStep\<close> is at most 6, a call that finds more than 100 ms elapsed since
  \<open>lastUpdate\<close> writes the next of these duties, and a call that finds 100 ms or
  less does nothing at all; once six toggles are written (\<open>animationStep = 7\<close>) the
  next call, at any time, writes nothing and makes the state \<open>LISTENING\<close>. In
  particular six calls that each find more than 100 ms elapsed write all six duties.
\<close>

theorem brutalFeedback_pattern:
  assumes "currentState w0 \<noteq> BRUTAL_FEEDBACK"
    and "w1 = setState BRUTAL_FEEDBACK w0" and "w2 = update w1" and "w = run ds w2"
  shows "emitted w1 w2 = [(clock w1, LedcWrite (ledChannel w1) 0), (clock w1, Delay 500)] \<and>
         clock w2 = clock w1 + 500 \<and>
         (\<forall>x\<in>set (emitted w2 w). clock w1 + 500 \<le> fst x) \<and>
         (currentState w = BRUTAL_FEEDBACK \<longrightarrow>
            1 \<le> animationStep w \<and> animationStep w \<le> 7 \<and>
            duties (emitted w2 w) = take (nat (animationStep w - 1)) [255, 0, 255, 0, 255, 0] \<and>
            (animationStep w \<le> 6 \<and> 100 < elapsed (advance d w) \<longrightarrow>
               currentState (tick d w) = BRUTAL_FEEDBACK \<and>
               animationStep (tick d w) = animationStep w + 1 \<and>
               emitted w (tick d w) =
                 [(clock w + d,
                   LedcWrite (ledChannel w) (if animationStep w mod 2 \<noteq> 0 then 255 else 0))]) \<and>
            (animationStep w \<le> 6 \<and> \<not> 100 < elapsed (advance d w) \<longrightarrow>
               tick d w = advance d w) \<and>
            (animationStep w = 7 \<longrightarrow>
               currentState (tick d w) = LISTENING \<and> duties (emitted w (tick d w)) = [])) \<and>
         (length ds = 6 \<and> qualifying 100 ds w2 \<longrightarrow>
            currentState w = BRUTAL_FEEDBACK \<and> animationStep w = 7 \<and>
            duties (emitted w2 w) = [255, 0, 255, 0, 255, 0])"
proof -
  have w1: "currentState w1 = BRUTAL_FEEDBACK" "animationStep w1 = 0"
    using assms(1,2) by (simp_all add: setState_def)
  note f = brutal_first [OF w1]
  have first: "emitted w1 w2 = [(clock w1, LedcWrite (ledChannel w1) 0), (clock w1, Delay 500)]"
    and clk: "clock w2 = clock w1 + 500"
    and w2: "currentState w2 = BRUTAL_FEEDBACK" "animationStep w2 = 1"
    using f w1 assms(3) by (simp_all add: emitted_def)
  have stamps: "\<forall>x\<in>set (emitted w2 w). clock w1 + 500 \<le> fst x"
    using run_grows [of ds w2] clk assms(4) by simp
  have gen: "1 \<le> animationStep w \<and> animationStep w \<le> 7 \<and>
            duties (emitted w2 w) = take (nat (animationStep w - 1)) [255, 0, 255, 0, 255, 0] \<and>
            (animationStep w \<le> 6 \<and> 100 < elapsed (advance d w) \<longrightarrow>
               currentState (tick d w) = BRUTAL_FEEDBACK \<and>
               animationStep (tick d w) = animationStep w + 1 \<and>
               emitted w (tick d w) =
                 [(clock w + d,
                   LedcWrite (ledChannel w) (if animationStep w mod 2 \<noteq> 0 then 255 else 0))]) \<and>
            (animationStep w \<le> 6 \<and> \<not> 100 < elapsed (advance d w) \<longrightarrow>
               tick d w = advance d w) \<and>
            (animationStep w = 7 \<longrightarrow>
               currentState (tick d w) = LISTENING \<and> duties (emitted w (tick d w)) = [])"
    if bf: "currentState w = BRUTAL_FEEDBACK"
  proof -
    have "duties (drop (length (trace w2)) (trace w2)) =
        take (nat (animationStep w2 - 1)) [255, 0, 255, 0, 255, 0]"
      using w2 by (simp add: duties_def)
    from brutal_run_inv [OF w2(1) _ _ _ this, of ds] w2 bf assms(4)
    have inv: "1 \<le> animationStep w" "animationStep w \<le> 7"
      "duties (emitted w2 w) = take (nat (animationStep w - 1)) [255, 0, 255, 0, 255, 0]"
      by (simp_all add: emitted_def)
    have nz: "animationStep w \<noteq> 0" using inv(1) by simp
    have due: "currentState (tick d w) = BRUTAL_FEEDBACK \<and>
               animationStep (tick d w) = animationStep w + 1 \<and>
               emitted w (tick d w) =
                 [(clock w + d,
                   LedcWrite (ledChannel w) (if animationStep w mod 2 \<noteq> 0 then 255 else 0))]"
      if "animationStep w \<le> 6" "100 < elapsed (advance d w)"
      using brutal_step [OF bf nz that] by (simp add: emitted_def)
    have wait: "tick d w = advance d w"
      if "animationStep w \<le> 6" "\<not> 100 < elapsed (advance d w)"
      using brutal_wait [OF bf nz that] .
    have last: "currentState (tick d w) = LISTENING \<and> duties (emitted w (tick d w)) = []"
      if "animationStep w = 7"
      using brutal_done [OF bf, of d] that by (simp add: emitted_def duties_def)
    show ?thesis
      using inv due wait last by blast
  qed
  have six: "currentState w = BRUTAL_FEEDBACK \<and> animationStep w = 7 \<and>
            duties (emitted w2 w) = [255, 0, 255, 0, 255, 0]"
    if "length ds = 6" "qualifying 100 ds w2"
  proof -
    from brutal_run [of w2 ds] w2 that assms(4)
    have c: "currentState w = BRUTAL_FEEDBACK" and a: "animationStep w = 7"
      by auto
    from gen [OF c] a show ?thesis
      using c by simp
  qed
  show ?thesis
    using first clk stamps gen six by blast
qed

text \<open>
  Boot at clock 1000. The call right after the first one already finds 1500 ms elapsed,
  \<open>lastUpdate\<close> not having been touched by the first call. After two toggles a call
  100 ms later does nothing and a call 101 ms later writes the third duty.
\<close>

theorem brutalFeedback_pattern_witness:
  "currentState (new_LEDAnimator 2 1000) \<noteq> BRUTAL_FEEDBACK \<and>
   emitted (setState BRUTAL_FEEDBACK (new_LEDAnimator 2 1000))
     (update (setState BRUTAL_FEEDBACK (new_LEDAnimator 2 1000))) =
       [(1000, LedcWrite 0 0), (1000, Delay 500)] \<and>
   qualifying 100 [0, 101, 101, 101, 101, 101]
     (update (setState BRUTAL_FEEDBACK (new_LEDAnimator 2 1000))) \<and>
   duties (emitted (update (setState BRUTAL_FEEDBACK (new_LEDAnimator 2 1000)))
     (run [0, 101, 101, 101, 101, 101] (update (setState BRUTAL_FEEDBACK (new_LEDAnimator 2 1000))))) =
       [255, 0, 255, 0, 255, 0] \<and>
   animationStep (run [0, 101, 101, 101, 101, 101]
     (update (setState BRUTAL_FEEDBACK (new_LEDAnimator 2 1000)))) = 7 \<and>
   currentState (tick 0 (run [0, 101, 101, 101, 101, 101]
     (update (setState BRUTAL_FEEDBACK (new_LEDAnimator 2 1000))))) = LISTENING \<and>
   animationStep (run [0, 101]
     (update (setState BRUTAL_FEEDBACK (new_LEDAnimator 2 1000)))) = 3 \<and>
   duties (emitted (update (setState BRUTAL_FEEDBACK (new_LEDAnimator 2 1000)))
     (run [0, 101] (update (setState BRUTAL_FEEDBACK (new_LEDAnimator 2 1000))))) = [255, 0] \<and>
   tick 100 (run [0, 101] (update (setState BRUTAL_FEEDBACK (new_LEDAnimator 2 1000)))) =
     advance 100 (run [0, 101] (update (setState BRUTAL_FEEDBACK (new_LEDAnimator 2 1000)))) \<and>
   emitted (run [0, 101] (update (setState BRUTAL_FEEDBACK (new_LEDAnimator 2 1000))))
     (tick 101 (run [0, 101] (update (setState BRUTAL_FEEDBACK (new_LEDAnimator 2 1000))))) =
       [(1702, LedcWrite 0 255)]"
proof -
  have h: "currentState (new_LEDAnimator 2 1000) \<noteq> BRUTAL_FEEDBACK"
    by (simp add: new_LEDAnimator_def)
  note a = brutalFeedback_pattern [OF h refl refl refl, of "[0, 101, 101, 101, 101, 101]" 0]
  note b = brutalFeedback_pattern [OF h refl refl refl, of "[0, 101]" 100]
  note c = brutalFeedback_pattern [OF h refl refl refl, of "[0, 101]" 101]
  have q: "qualifying 100 [0, 101, 101, 101, 101, 101]
     (update (setState BRUTAL_FEEDBACK (new_LEDAnimator 2 1000)))"
    by (simp add: evals)
  have s: "currentState (run [0, 101]
       (update (setState BRUTAL_FEEDBACK (new_LEDAnimator 2 1000)))) = BRUTAL_FEEDBACK"
    "animationStep (run [0, 101]
       (update (setState BRUTAL_FEEDBACK (new_LEDAnimator 2 1000)))) = 3"
    "\<not> 100 < elapsed (advance 100 (run [0, 101]
       (update (setState BRUTAL_FEEDBACK (new_LEDAnimator 2 1000)))))"
    "100 < elapsed (advance 101 (run [0, 101]
       (update (setState BRUTAL_FEEDBACK (new_LEDAnimator 2 1000)))))"
    "clock (run [0, 101] (update (setState BRUTAL_FEEDBACK (new_LEDAnimator 2 1000)))) = 1601"
    "ledChannel (run [0, 101] (update (setState BRUTAL_FEEDBACK (new_LEDAnimator 2 1000)))) = 0"
    "clock (setState BRUTAL_FEEDBACK (new_LEDAnimator 2 1000)) = 1000"
    "ledChannel (setState BRUTAL_FEEDBACK (new_LEDAnimator 2 1000)) = 0"
    by (simp_all add: evals)
  show ?thesis
    using h q s a b c by simp
qed

text \<open>
  C4 as stated fails at the boundary: seven calls exactly 100 ms apart after the first
  one. Every call finds at least 100 ms elapsed, yet only every second one passes the
  test \<open>> 100\<close>: the first six calls write three duties and after the seventh the state
  is still \<open>BRUTAL_FEEDBACK\<close>.
\<close>

theorem brutalFeedback_boundary_counterexample:
  "currentState (update (setState BRUTAL_FEEDBACK (new_LEDAnimator 2 1000))) = BRUTAL_FEEDBACK \<and>
   animationStep (update (setState BRUTAL_FEEDBACK (new_LEDAnimator 2 1000))) = 1 \<and>
   at_least_apart 100 [100, 100, 100, 100, 100, 100, 100]
     (update (setState BRUTAL_FEEDBACK (new_LEDAnimator 2 1000))) \<and>
   duties (emitted (update (setState BRUTAL_FEEDBACK (new_LEDAnimator 2 1000)))
     (run [100, 100, 100, 100, 100, 100]
        (update (setState BRUTAL_FEEDBACK (new_LEDAnimator 2 1000))))) = [255, 0, 255] \<and>
   currentState (run [100, 100, 100, 100, 100, 100, 100]
     (update (setState BRUTAL_FEEDBACK (new_LEDAnimator 2 1000)))) = BRUTAL_FEEDBACK"
  by (simp add: evals)

section \<open>Patterns that never end by themselves\<close>

lemma recording_tick_state: "currentState w = RECORDING \<Longrightarrow> currentState (tick d w) = RECORDING"
  by (simp add: update_def prims recordingPulse_def Let_def)

lemma error_tick_state: "currentState w = ERROR \<Longrightarrow> currentState (tick d w) = ERROR"
  by (simp add: update_def prims errorFlash_def Let_def)

text \<open>
  C9. From any engine whose state is \<open>RECORDING\<close> (or \<open>ERROR\<close>), whatever its
  other fields, any number of \<open>update\<close> calls at any times, with no \<open>setState\<close>
  from outside, leaves \<open>currentState\<close> unchanged; 10000 calls in particular.
\<close>

theorem recording_error_never_terminate:
  assumes "currentState w = RECORDING \<or> currentState w = ERROR"
  shows "currentState (run ds w) = currentState w"
  using assms
proof (induction ds arbitrary: w)
  case Nil
  show ?case by simp
next
  case (Cons d ds)
  from Cons.prems have "currentState (tick d w) = currentState w"
    using recording_tick_state error_tick_state by auto
  with Cons show ?case by simp
qed

theorem recording_error_never_terminate_witness:
  "currentState (setState RECORDING (new_LEDAnimator 2 0)) = RECORDING \<and>
   currentState (run (replicate 10000 9) (setState RECORDING (new_LEDAnimator 2 0))) = RECORDING \<and>
   currentState (setState ERROR (new_LEDAnimator 2 0)) = ERROR \<and>
   currentState (run (replicate 10000 51) (setState ERROR (new_LEDAnimator 2 0))) = ERROR"
  using recording_error_never_terminate [of "setState RECORDING (new_LEDAnimator 2 0)" "replicate 10000 9"]
    recording_error_never_terminate [of "setState ERROR (new_LEDAnimator 2 0)" "replicate 10000 51"]
  by (simp add: setState_def new_LEDAnimator_def)

section \<open>The blinking patterns: Uploading, Error, LowBattery\<close>

lemma blink_tick:
  assumes "(currentState w = UPLOADING \<and> hi = 255) \<or> (currentState w = ERROR \<and> hi = 255) \<or>
           (currentState w = LOW_BATTERY \<and> hi = 100)"
    and "brightness w = 0 \<or> brightness w = hi"
  shows "currentState (tick d w) = currentState w \<and>
         (brightness (tick d w) = 0 \<or> brightness (tick d w) = hi)"
  using assms
  by (elim disjE conjE)
    (simp_all add: update_def prims uploadingBlink_def errorFlash_def lowBatteryWarning_def Let_def)

lemma blink_run:
  assumes "(currentState w = UPLOADING \<and> hi = 255) \<or> (currentState w = ERROR \<and> hi = 255) \<or>
           (currentState w = LOW_BATTERY \<and> hi = 100)"
    and "brightness w = 0 \<or> brightness w = hi"
  shows "brightness (run ds w) = 0 \<or> brightness (run ds w) = hi"
  using assms
proof (induction ds arbitrary: w)
  case Nil
  then show ?case by simp
next
  case (Cons d ds)
  note t = blink_tick [OF Cons.prems, of d]
  have "brightness (run ds (tick d w)) = 0 \<or> brightness (run ds (tick d w)) = hi"
  proof (rule Cons.IH)
    show "(currentState (tick d w) = UPLOADING \<and> hi = 255) \<or>
          (currentState (tick d w) = ERROR \<and> hi = 255) \<or>
          (currentState (tick d w) = LOW_BATTERY \<and> hi = 100)"
      using t Cons.prems(1) by simp
    show "brightness (tick d w) = 0 \<or> brightness (tick d w) = hi"
      using t by simp
  qed
  then show ?case by simp
qed

lemma blink_first:
  assumes "(currentState w = UPLOADING \<and> c = 100 \<and> hi = 255) \<or>
           (currentState w = ERROR \<and> c = 50 \<and> hi = 255) \<or>
           (currentState w = LOW_BATTERY \<and> c = 1000 \<and> hi = 100)"
    and "c < elapsed w"
  shows "duties (emitted w (update w)) = [if brightness w = 0 then hi else 0] \<and>
         brightness (update w) = (if brightness w = 0 then hi else 0) \<and>
         currentState (update w) = currentState w"
  using assms
  by (elim disjE conjE)
    (simp_all add: update_def prims uploadingBlink_def errorFlash_def lowBatteryWarning_def Let_def)

lemma blink_idle:
  assumes "(currentState w = UPLOADING \<and> c = 100) \<or>
           (currentState w = ERROR \<and> c = 50) \<or>
           (currentState w = LOW_BATTERY \<and> c = 1000)"
    and "\<not> c < elapsed w"
  shows "update w = w"
  using assms
  by (elim disjE conjE)
    (simp_all add: update_def prims uploadingBlink_def errorFlash_def lowBatteryWarning_def Let_def)

text \<open>
  C10. In \<open>UPLOADING\<close>, \<open>ERROR\<close> and \<open>LOW_BATTERY\<close> (cadence \<open>c\<close> = 100, 50,
  1000 ms; high value \<open>hi\<close> = 255, 255, 100) a call that finds more than \<open>c\<close>
  milliseconds elapsed writes \<open>hi\<close> exactly when the stored \<open>brightness\<close> is 0 and
  writes 0 otherwise, and stores what it writes. So whatever \<open>brightness\<close> the
  previous pattern left behind, after the first such call and any further calls in the
  same state the stored \<open>brightness\<close> is 0 or \<open>hi\<close>.
\<close>

theorem blink_patterns:
  assumes "(currentState w = UPLOADING \<and> c = 100 \<and> hi = 255) \<or>
           (currentState w = ERROR \<and> c = 50 \<and> hi = 255) \<or>
           (currentState w = LOW_BATTERY \<and> c = 1000 \<and> hi = 100)"
    and "c < elapsed w"
  shows "duties (emitted w (update w)) = [if brightness w = 0 then hi else 0] \<and>
         brightness (update w) = (if brightness w = 0 then hi else 0) \<and>
         brightness (run ds (update w)) \<in> {0, hi}"
proof -
  note f = blink_first [OF assms]
  have "brightness (run ds (update w)) = 0 \<or> brightness (run ds (update w)) = hi"
  proof (rule blink_run)
    show "(currentState (update w) = UPLOADING \<and> hi = 255) \<or>
          (currentState (update w) = ERROR \<and> hi = 255) \<or>
          (currentState (update w) = LOW_BATTERY \<and> hi = 100)"
      using f assms(1) by auto
    show "brightness (update w) = 0 \<or> brightness (update w) = hi"
      using f by simp
  qed
  with f show ?thesis by simp
qed

text \<open>Entering LowBattery with the brightness 1 that one Idle step left behind.\<close>

theorem blink_patterns_witness:
  "currentState (advance 1001 (setState LOW_BATTERY (tick 21 (new_LEDAnimator 2 0)))) =
     LOW_BATTERY \<and>
   brightness (advance 1001 (setState LOW_BATTERY (tick 21 (new_LEDAnimator 2 0)))) = 1 \<and>
   1000 < elapsed (advance 1001 (setState LOW_BATTERY (tick 21 (new_LEDAnimator 2 0)))) \<and>
   duties (emitted (advance 1001 (setState LOW_BATTERY (tick 21 (new_LEDAnimator 2 0))))
     (update (advance 1001 (setState LOW_BATTERY (tick 21 (new_LEDAnimator 2 0)))))) = [0] \<and>
   brightness (run [1001, 5]
     (update (advance 1001 (setState LOW_BATTERY (tick 21 (new_LEDAnimator 2 0)))))) = 100"
  using blink_patterns [of "advance 1001 (setState LOW_BATTERY (tick 21 (new_LEDAnimator 2 0)))"
      1000 100 "[1001, 5]"]
  by (simp add: evals)

section \<open>The Idle pattern\<close>

text \<open>
  What one call of \<open>breathingEffect\<close> does once more than 20 ms have elapsed: up by
  one while ascending, turning round at 80; down by one while descending; and, when
  that brings \<open>brightness\<close> to 0 or below, turn round, sleep 300 ms and only then
  write the duty. \<open>lastUpdate\<close> is taken before the sleep.
\<close>

lemma idle_up_step:
  assumes "currentState w = IDLE" "direction w" "20 < elapsed (advance d w)"
  shows "tick d w = w\<lparr>lastUpdate := of_nat (clock w + d), brightness := brightness w + 1,
           direction := brightness w + 1 < 80, clock := clock w + d,
           trace := trace w @ [(clock w + d, LedcWrite (ledChannel w) (brightness w + 1))]\<rparr>"
  using assms by (simp add: update_def prims breathingEffect_def Let_def)

lemma idle_down_step:
  assumes "currentState w = IDLE" "\<not> direction w" "20 < elapsed (advance d w)"
    "0 < brightness w - 1"
  shows "tick d w = w\<lparr>lastUpdate := of_nat (clock w + d), brightness := brightness w - 1,
           clock := clock w + d,
           trace := trace w @ [(clock w + d, LedcWrite (ledChannel w) (brightness w - 1))]\<rparr>"
  using assms by (simp add: update_def prims breathingEffect_def Let_def)

lemma idle_bottom_step:
  assumes "currentState w = IDLE" "\<not> direction w" "20 < elapsed (advance d w)"
    "brightness w - 1 \<le> 0"
  shows "tick d w = w\<lparr>lastUpdate := of_nat (clock w + d), brightness := brightness w - 1,
           direction := True, clock := clock w + d + 300,
           trace := trace w @ [(clock w + d, Delay 300),
             (clock w + d + 300, LedcWrite (ledChannel w) (brightness w - 1))]\<rparr>"
  using assms by (simp add: update_def prims breathingEffect_def Let_def)

lemma idle_up_run:
  assumes "currentState w = IDLE" "direction w" "brightness w + int n < 80"
    "lastUpdate w = of_nat (clock w)"
  shows "\<exists>tr. run (replicate n 21) w =
           w\<lparr>lastUpdate := of_nat (clock w + 21 * n), brightness := brightness w + int n,
             clock := clock w + 21 * n, trace := tr\<rparr>"
  using assms
proof (induction n arbitrary: w)
  case 0
  then show ?case by (intro exI [of _ "trace w"]) simp
next
  case (Suc n)
  have q: "20 < elapsed (advance 21 w)"
    using Suc.prems(4) by (simp add: elapsed_def millis_def advance_def)
  note s = idle_up_step [OF Suc.prems(1,2) q]
  have "\<exists>tr. run (replicate n 21) (tick 21 w) =
           (tick 21 w)\<lparr>lastUpdate := of_nat (clock (tick 21 w) + 21 * n),
             brightness := brightness (tick 21 w) + int n,
             clock := clock (tick 21 w) + 21 * n, trace := tr\<rparr>"
    using Suc.prems by (intro Suc.IH) (simp_all add: s)
  then obtain tr where "run (replicate n 21) (tick 21 w) =
           (tick 21 w)\<lparr>lastUpdate := of_nat (clock (tick 21 w) + 21 * n),
             brightness := brightness (tick 21 w) + int n,
             clock := clock (tick 21 w) + 21 * n, trace := tr\<rparr>"
    by blast
  moreover have "w\<lparr>direction := True\<rparr> = w"
    using Suc.prems(2) by (simp add: direction_same)
  ultimately show ?case
    using Suc.prems(3) by (intro exI [of _ tr]) (simp add: s algebra_simps)
qed

lemma idle_down_run:
  assumes "currentState w = IDLE" "\<not> direction w" "0 < brightness w - int n"
    "lastUpdate w = of_nat (clock w)"
  shows "\<exists>tr. run (replicate n 21) w =
           w\<lparr>lastUpdate := of_nat (clock w + 21 * n), brightness := brightness w - int n,
             clock := clock w + 21 * n, trace := tr\<rparr>"
  using assms
proof (induction n arbitrary: w)
  case 0
  then show ?case by (intro exI [of _ "trace w"]) simp
next
  case (Suc n)
  have q: "20 < elapsed (advance 21 w)"
    using Suc.prems(4) by (simp add: elapsed_def millis_def advance_def)
  have "0 < brightness w - 1"
    using Suc.prems(3) by simp
  note s = idle_down_step [OF Suc.prems(1,2) q this]
  have "\<exists>tr. run (replicate n 21) (tick 21 w) =
           (tick 21 w)\<lparr>lastUpdate := of_nat (clock (tick 21 w) + 21 * n),
             brightness := brightness (tick 21 w) - int n,
             clock := clock (tick 21 w) + 21 * n, trace := tr\<rparr>"
    using Suc.prems by (intro Suc.IH) (simp_all add: s)
  then obtain tr where "run (replicate n 21) (tick 21 w) =
           (tick 21 w)\<lparr>lastUpdate := of_nat (clock (tick 21 w) + 21 * n),
             brightness := brightness (tick 21 w) - int n,
             clock := clock (tick 21 w) + 21 * n, trace := tr\<rparr>"
    by blast
  then show ?case
    by (intro exI [of _ tr]) (simp add: s algebra_simps)
qed

text \<open>80 calls, 21 ms apart, from boot: up to 80, where the ramp turns round.\<close>

lemma idle_top:
  "\<exists>tr. run (replicate 79 21 @ [21]) (new_LEDAnimator 2 0) =
     (new_LEDAnimator 2 0)\<lparr>lastUpdate := 1680, brightness := 80, direction := False,
        clock := 1680, trace := tr\<rparr>"
proof -
  obtain tr1 where 1: "run (replicate 79 21) (new_LEDAnimator 2 0) =
      (new_LEDAnimator 2 0)\<lparr>lastUpdate := 1659, brightness := 79, clock := 1659, trace := tr1\<rparr>"
    using idle_up_run [of "new_LEDAnimator 2 0" 79] by (auto simp add: new_LEDAnimator_def)
  have 2: "tick 21 ((new_LEDAnimator 2 0)\<lparr>lastUpdate := 1659, brightness := 79, clock := 1659,
        trace := tr1\<rparr>) =
      (new_LEDAnimator 2 0)\<lparr>lastUpdate := 1680, brightness := 80,
      direction := False, clock := 1680, trace := tr1 @ [(1680, LedcWrite 0 80)]\<rparr>"
    by (simp add: evals)
  show ?thesis
    by (intro exI [of _ "tr1 @ [(1680, LedcWrite 0 80)]"]) (simp add: run_append 1 2)
qed

text \<open>159 calls, 21 ms apart, from boot: up to 80 and down again to 1.\<close>

lemma idle_near_bottom:
  "\<exists>tr. run (replicate 79 21 @ 21 # replicate 79 21) (new_LEDAnimator 2 0) =
     (new_LEDAnimator 2 0)\<lparr>lastUpdate := 3339, brightness := 1, direction := False,
        clock := 3339, trace := tr\<rparr>"
proof -
  obtain tr1 where 1: "run (replicate 79 21) (new_LEDAnimator 2 0) =
      (new_LEDAnimator 2 0)\<lparr>lastUpdate := 1659, brightness := 79, clock := 1659, trace := tr1\<rparr>"
    using idle_up_run [of "new_LEDAnimator 2 0" 79] by (auto simp add: new_LEDAnimator_def)
  let ?w1 = "(new_LEDAnimator 2 0)\<lparr>lastUpdate := 1659, brightness := 79, clock := 1659, trace := tr1\<rparr>"
  have 2: "tick 21 ?w1 = (new_LEDAnimator 2 0)\<lparr>lastUpdate := 1680, brightness := 80,
      direction := False, clock := 1680, trace := tr1 @ [(1680, LedcWrite 0 80)]\<rparr>"
    by (simp add: evals)
  let ?w2 = "(new_LEDAnimator 2 0)\<lparr>lastUpdate := 1680, brightness := 80,
      direction := False, clock := 1680, trace := tr1 @ [(1680, LedcWrite 0 80)]\<rparr>"
  obtain tr3 where 3: "run (replicate 79 21) ?w2 =
      (new_LEDAnimator 2 0)\<lparr>lastUpdate := 3339, brightness := 1, direction := False,
        clock := 3339, trace := tr3\<rparr>"
    using idle_down_run [of ?w2 79] by (auto simp add: new_LEDAnimator_def)
  show ?thesis
    by (intro exI [of _ tr3]) (simp add: run_append 1 2 3)
qed

text \<open>
  C7 at a concrete run. The ramp itself is as the claim says (the three step lemmas
  above). The pause is not: in the engine reached from boot by 159 Idle calls
  (\<open>brightness = 1\<close>, descending), the next call, at clock 3360, sleeps 300 ms and
  writes duty 0 only afterwards, at clock 3660, with \<open>lastUpdate = 3360\<close>. A call
  made right after it, at the same clock value, finds 300 ms elapsed and writes duty 1:
  the duty 0 is followed by the next duty change 0 ms later, the 300 ms having been
  spent at duty 1.
\<close>

theorem idle_bottom_not_held:
  "brightness (run (replicate 79 21 @ 21 # replicate 79 21) (new_LEDAnimator 2 0)) = 1 \<and>
   direction (run (replicate 79 21 @ 21 # replicate 79 21) (new_LEDAnimator 2 0)) = False \<and>
   emitted (run (replicate 79 21 @ 21 # replicate 79 21) (new_LEDAnimator 2 0))
     (run [21, 0] (run (replicate 79 21 @ 21 # replicate 79 21) (new_LEDAnimator 2 0))) =
     [(3360, Delay 300), (3660, LedcWrite 0 0), (3660, LedcWrite 0 1)]"
proof -
  obtain tr where w: "run (replicate 79 21 @ 21 # replicate 79 21) (new_LEDAnimator 2 0) =
     (new_LEDAnimator 2 0)\<lparr>lastUpdate := 3339, brightness := 1, direction := False,
        clock := 3339, trace := tr\<rparr>"
    using idle_near_bottom by blast
  show ?thesis
    unfolding w by (simp add: evals)
qed

section \<open>From Idle to Recording\<close>

lemma idle_tick_inv:
  assumes "currentState w = IDLE"
    and "(direction w \<and> 0 \<le> brightness w \<and> brightness w < 80) \<or>
         (\<not> direction w \<and> 0 < brightness w \<and> brightness w \<le> 80)"
  shows "currentState (tick d w) = IDLE \<and>
         ((direction (tick d w) \<and> 0 \<le> brightness (tick d w) \<and> brightness (tick d w) < 80) \<or>
          (\<not> direction (tick d w) \<and> 0 < brightness (tick d w) \<and> brightness (tick d w) \<le> 80))"
  using assms
  by (elim disjE conjE) (simp_all add: update_def prims breathingEffect_def Let_def)

lemma idle_run_inv:
  assumes "currentState w = IDLE"
    and "(direction w \<and> 0 \<le> brightness w \<and> brightness w < 80) \<or>
         (\<not> direction w \<and> 0 < brightness w \<and> brightness w \<le> 80)"
  shows "currentState (run ds w) = IDLE \<and>
         ((direction (run ds w) \<and> 0 \<le> brightness (run ds w) \<and> brightness (run ds w) < 80) \<or>
          (\<not> direction (run ds w) \<and> 0 < brightness (run ds w) \<and> brightness (run ds w) \<le> 80))"
  using assms
proof (induction ds arbitrary: w)
  case Nil
  then show ?case by simp
next
  case (Cons d ds)
  note t = idle_tick_inv [OF Cons.prems, of d]
  show ?case
    using Cons.IH [of "tick d w"] t by simp
qed

lemma recording_first:
  assumes "currentState w \<noteq> RECORDING"
  shows "(if 8 < elapsed (advance d (setState RECORDING w))
          then duties (emitted (setState RECORDING w) (tick d (setState RECORDING w))) =
                 [if direction w then brightness w + 10 else brightness w - 10]
          else emitted (setState RECORDING w) (tick d (setState RECORDING w)) = [])"
  using assms by (simp add: update_def prims recordingPulse_def Let_def)

text \<open>
  C8, as the code has it. Let \<open>w\<close> be reached from the constructor by any number of
  Idle calls; its \<open>brightness\<close> is between 0 and 80. After \<open>setState(RECORDING)\<close>
  the next \<open>update\<close> writes nothing unless it finds more than 8 ms elapsed since
  \<open>lastUpdate\<close>. When it does, it writes and stores Idle's \<open>brightness\<close> plus 10
  if the ramp was ascending, and Idle's \<open>brightness\<close> minus 10 if the ramp was
  descending from at least 10: the Recording ramp goes on from where Idle stood and is
  not started at 50. (Descending from below 10 is not covered here.)
\<close>

theorem recording_after_idle:
  assumes "w = run ds (new_LEDAnimator pin t0)"
  shows "currentState w = IDLE \<and> 0 \<le> brightness w \<and> brightness w \<le> 80 \<and>
         (\<not> 8 < elapsed (advance d (setState RECORDING w)) \<longrightarrow>
            emitted (setState RECORDING w) (tick d (setState RECORDING w)) = []) \<and>
         (8 < elapsed (advance d (setState RECORDING w)) \<and> direction w \<longrightarrow>
            duties (emitted (setState RECORDING w) (tick d (setState RECORDING w))) =
              [brightness w + 10] \<and>
            brightness (tick d (setState RECORDING w)) = brightness w + 10) \<and>
         (8 < elapsed (advance d (setState RECORDING w)) \<and> \<not> direction w \<and> 10 \<le> brightness w \<longrightarrow>
            duties (emitted (setState RECORDING w) (tick d (setState RECORDING w))) =
              [brightness w - 10] \<and>
            brightness (tick d (setState RECORDING w)) = brightness w - 10)"
proof -
  have "currentState w = IDLE \<and>
         ((direction w \<and> 0 \<le> brightness w \<and> brightness w < 80) \<or>
          (\<not> direction w \<and> 0 < brightness w \<and> brightness w \<le> 80))"
    unfolding assms by (rule idle_run_inv) (simp_all add: new_LEDAnimator_def)
  then have i: "currentState w = IDLE" and b: "0 \<le> brightness w" "brightness w \<le> 80"
    by auto
  from i have n: "currentState w \<noteq> RECORDING" by simp
  have m: "brightness (tick d (setState RECORDING w)) =
      (if 8 < elapsed (advance d (setState RECORDING w))
       then (if direction w then brightness w + 10 else brightness w - 10)
       else brightness w)"
    using n by (simp add: update_def prims recordingPulse_def Let_def)
  from recording_first [OF n, of d] m i b show ?thesis
    by (simp split: if_splits)
qed

text \<open>
  After one Idle step (brightness 1, ascending) the Recording step writes 11, or nothing
  when only 8 ms have elapsed; after 80 Idle steps (brightness 80, descending) it
  writes 70.
\<close>

theorem recording_after_idle_witness:
  "brightness (run [21] (new_LEDAnimator 2 1000)) = 1 \<and>
   direction (run [21] (new_LEDAnimator 2 1000)) \<and>
   8 < elapsed (advance 9 (setState RECORDING (run [21] (new_LEDAnimator 2 1000)))) \<and>
   duties (emitted (setState RECORDING (run [21] (new_LEDAnimator 2 1000)))
     (tick 9 (setState RECORDING (run [21] (new_LEDAnimator 2 1000))))) = [11] \<and>
   emitted (setState RECORDING (run [21] (new_LEDAnimator 2 1000)))
     (tick 8 (setState RECORDING (run [21] (new_LEDAnimator 2 1000)))) = [] \<and>
   brightness (run (replicate 79 21 @ [21]) (new_LEDAnimator 2 0)) = 80 \<and>
   direction (run (replicate 79 21 @ [21]) (new_LEDAnimator 2 0)) = False \<and>
   8 < elapsed (advance 9 (setState RECORDING (run (replicate 79 21 @ [21]) (new_LEDAnimator 2 0)))) \<and>
   duties (emitted (setState RECORDING (run (replicate 79 21 @ [21]) (new_LEDAnimator 2 0)))
     (tick 9 (setState RECORDING (run (replicate 79 21 @ [21]) (new_LEDAnimator 2 0))))) = [70]"
proof -
  obtain tr where w: "run (replicate 79 21 @ [21]) (new_LEDAnimator 2 0) =
     (new_LEDAnimator 2 0)\<lparr>lastUpdate := 1680, brightness := 80, direction := False,
        clock := 1680, trace := tr\<rparr>"
    using idle_top by blast
  have top: "brightness (run (replicate 79 21 @ [21]) (new_LEDAnimator 2 0)) = 80"
    "direction (run (replicate 79 21 @ [21]) (new_LEDAnimator 2 0)) = False"
    "8 < elapsed (advance 9 (setState RECORDING (run (replicate 79 21 @ [21]) (new_LEDAnimator 2 0))))"
    unfolding w by (simp_all add: evals)
  have low: "brightness (run [21] (new_LEDAnimator 2 1000)) = 1"
    "direction (run [21] (new_LEDAnimator 2 1000))"
    "8 < elapsed (advance 9 (setState RECORDING (run [21] (new_LEDAnimator 2 1000))))"
    "\<not> 8 < elapsed (advance 8 (setState RECORDING (run [21] (new_LEDAnimator 2 1000))))"
    by (simp_all add: evals)
  show ?thesis
    using top low
      recording_after_idle [OF refl, of "[21]" 2 1000 9]
      recording_after_idle [OF refl, of "[21]" 2 1000 8]
      recording_after_idle [OF refl, of "replicate 79 21 @ [21]" 2 0 9]
    by simp
qed

text \<open>
  C8 as stated fails: one Idle step (brightness 1), one Idle call that is not due,
  \<open>setState(RECORDING)\<close>, and \<open>update\<close> 8 ms later writes duty 11, below 50.
\<close>

theorem recording_start_counterexample:
  "currentState (run [21, 15] (new_LEDAnimator 2 0)) = IDLE \<and>
   clock (advance 8 (setState RECORDING (run [21, 15] (new_LEDAnimator 2 0)))) =
     clock (run [21, 15] (new_LEDAnimator 2 0)) + 8 \<and>
   duties (emitted (setState RECORDING (run [21, 15] (new_LEDAnimator 2 0)))
     (tick 8 (setState RECORDING (run [21, 15] (new_LEDAnimator 2 0))))) = [11]"
  by (simp add: evals)

section \<open>The range of the duty\<close>

text \<open>
  C1 at a concrete run. A freshly constructed animator, \<open>setState(RECORDING)\<close>, then
  26 calls of \<open>update\<close> 9 ms apart: the ramp climbs in steps of 10 from 0, the test
  \<open>brightness >= 255\<close> is made after the addition, and nothing clamps, so the 26th call
  stores 260 and writes 260 to the 8-bit PWM channel.
\<close>

theorem recording_overshoot:
  "duties (trace (run [9, 9, 9, 9, 9, 9, 9, 9, 9, 9, 9, 9, 9, 9, 9, 9, 9, 9, 9, 9, 9, 9, 9, 9, 9, 9]
      (setState RECORDING (new_LEDAnimator 2 0)))) =
     [10, 20, 30, 40, 50, 60, 70, 80, 90, 100, 110, 120, 130, 140, 150, 160, 170, 180, 190,
      200, 210, 220, 230, 240, 250, 260] \<and>
   brightness (run [9, 9, 9, 9, 9, 9, 9, 9, 9, 9, 9, 9, 9, 9, 9, 9, 9, 9, 9, 9, 9, 9, 9, 9, 9, 9]
      (setState RECORDING (new_LEDAnimator 2 0))) = 260"
  by (simp add: evals)

section \<open>The Connecting pattern\<close>

text \<open>
  C5 at a concrete run. From boot, five Connecting calls 201 ms apart write
  255, 0, 255, 0, 0, the fifth sleeping 600 ms and leaving \<open>pulsePhase\<close> at 0. But
  \<open>pulsePhase\<close> is a function-local static that \<open>setState\<close> does not touch: after
  one Connecting step, \<open>setState(IDLE)\<close> and \<open>setState(CONNECTING)\<close> again,
  \<open>animationStep\<close> is back at 0 while \<open>pulsePhase\<close> is still 1, and the first step
  after re-entry writes 0 (phase 1) where phase 0 would write 255.
\<close>

theorem connecting_phase_survives_reentry:
  "duties (trace (run [201, 201, 201, 201, 201] (setState CONNECTING (new_LEDAnimator 2 0)))) =
     [255, 0, 255, 0, 0] \<and>
   delays (trace (run [201, 201, 201, 201, 201] (setState CONNECTING (new_LEDAnimator 2 0)))) =
     [600] \<and>
   pulsePhase (run [201, 201, 201, 201, 201] (setState CONNECTING (new_LEDAnimator 2 0))) = 0 \<and>
   pulsePhase (setState CONNECTING (setState IDLE
      (tick 201 (setState CONNECTING (new_LEDAnimator 2 0))))) = 1 \<and>
   animationStep (setState CONNECTING (setState IDLE
      (tick 201 (setState CONNECTING (new_LEDAnimator 2 0))))) = 0 \<and>
   duties (trace (tick 201 (setState CONNECTING (new_LEDAnimator 2 0)))) = [255] \<and>
   duties (emitted
      (setState CONNECTING (setState IDLE (tick 201 (setState CONNECTING (new_LEDAnimator 2 0)))))
      (tick 201 (setState CONNECTING (setState IDLE
         (tick 201 (setState CONNECTING (new_LEDAnimator 2 0))))))) = [0]"
  by (simp add: evals)

end
